theory Spec2Isabelle
  imports Complex_Main
begin

section \<open>The oVirt disk module: data model\<close>

text \<open>
  The theory embeds \<^verbatim>\<open>lib/ansible/modules/cloud/ovirt/ovirt_disks.py\<close>: the image
  upload (\<^verbatim>\<open>upload_disk_image\<close>), the storage placement
  (\<^verbatim>\<open>DisksModule.update_storage_domains\<close>) and the driver (\<^verbatim>\<open>main\<close>).
  The management service and the upload proxy are outside the program. They appear as
  an environment that answers the program's requests, and every request the program
  issues is recorded as an event of a trace.
\<close>

datatype ImageTransferPhase =
    INITIALIZING | TRANSFERRING | FINALIZING_SUCCESS | FINALIZING_FAILURE
  | FINISHED_SUCCESS | FINISHED_FAILURE | CANCELLED | UNKNOWN

datatype DiskStatus = OK | LOCKED | ILLEGAL

datatype DiskStorageType = IMAGE | LUN | CINDER

datatype State = present | absent | attached | detached

record ImageTransfer =
  phase :: ImageTransferPhase
  signed_ticket :: string
  proxy_path :: string

text \<open>
  Every failure of the source is a Python exception or a call of \<^verbatim>\<open>fail_json\<close>.
  The constructors carry the names of the specification's taxonomy where the source
  raises on purpose, and Python's own names where the interpreter raises.
\<close>

datatype error =
    TransferChunkError
      \<comment> \<open>\<^verbatim>\<open>Exception("Failed to upload disk image.")\<close>\<close>
  | TransferFailedError ImageTransferPhase
      \<comment> \<open>\<^verbatim>\<open>Exception("Error occured while uploading image. The transfer is in %s")\<close>\<close>
  | TransportError
      \<comment> \<open>the HTTPS connection raises while a chunk is sent\<close>
  | TimeoutExceeded
      \<comment> \<open>the wait helper gives up\<close>
  | ReferenceNotFoundError
      \<comment> \<open>\<^verbatim>\<open>fail_json(msg="VM don't exists, please create it first.")\<close>\<close>
  | AttributeError
      \<comment> \<open>\<^verbatim>\<open>'NoneType' object has no attribute 'id'\<close>\<close>
  | IndexError
      \<comment> \<open>\<^verbatim>\<open>list index out of range\<close>\<close>

datatype verify_mode = CERT_NONE | CERT_REQUIRED

record ssl_context =
  check_hostname :: bool
  verify :: verify_mode
  verify_locations :: "string list"

record auth_params =
  insecure :: bool
  ca_file :: "string option"

datatype action_name = Move | Copy

datatype event =
    AddTransfer "string option"
  | Sleep nat
  | GetTransfer
  | Connect ssl_context
  | Extend
  | Put string int int int
      \<comment> \<open>the bearer ticket, and first, last and total of \<^verbatim>\<open>Content-Range\<close>\<close>
  | Finalize
  | WaitDiskOK nat
      \<comment> \<open>a call of the wait helper for disk status OK, with its timeout\<close>
  | GetDisk
  | SearchStorageDomain string
  | Action action_name string
      \<comment> \<open>a move or copy of the disk to the storage domain with this id\<close>
  | SearchByLun "string option"
  | DiskCreate
  | DiskRemove
  | SearchVm string
  | LocateAttachments string
      \<comment> \<open>the disk attachments service of the VM with this id is obtained\<close>
  | AttachmentCreate bool
  | AttachmentRemove bool
  | CloseConnection

record module_params =
  p_state :: State
  p_id :: "string option"
  vm_name :: "string option"
  vm_id :: "string option"
  storage_domain :: "string option"
  storage_domains :: "string list option"
  logical_unit :: "(string \<times> string) list option"
  image_path :: "string option"
  force :: bool
  auth :: auth_params
  p_wait :: bool
  timeout :: nat
  poll_interval :: nat

text \<open>Python's truth value of an optional string, list or dictionary.\<close>

definition truthy :: "'a list option \<Rightarrow> bool" where
  "truthy v = (case v of None \<Rightarrow> False | Some xs \<Rightarrow> xs \<noteq> [])"

section \<open>The TLS context of the upload\<close>

text \<open>\<^verbatim>\<open>ssl.create_default_context()\<close>: verification on, no extra trust anchors.\<close>

definition create_default_context :: ssl_context where
  "create_default_context =
     \<lparr>check_hostname = True, verify = CERT_REQUIRED, verify_locations = []\<rparr>"

text \<open>Lines 251 to 257 of the source.\<close>

definition tls_context :: "auth_params \<Rightarrow> ssl_context" where
  "tls_context a =
     (let context = create_default_context in
      if insecure a then context\<lparr>check_hostname := False, verify := CERT_NONE\<rparr>
      else if truthy (ca_file a)
        then context\<lparr>verify_locations := verify_locations context @ [''ca.pem'']\<rparr>
      else context)"

section \<open>The image transfer: \<^verbatim>\<open>upload_disk_image\<close>\<close>

text \<open>
  The environment of one upload: the size of the image file, the transfer returned by
  \<^verbatim>\<open>transfers_service.add\<close>, the answer of the \<open>n\<close>-th call of
  \<^verbatim>\<open>transfer_service.get\<close>, the proxy's answer to the \<open>k\<close>-th \<^verbatim>\<open>PUT\<close>, and the
  number of seconds after which the disk reports status OK (\<open>None\<close>: never).
\<close>

datatype http_result = Status nat | Raised

record upload_env =
  image_size :: int
  added :: ImageTransfer
  gets :: "nat \<Rightarrow> ImageTransfer"
  responses :: "nat \<Rightarrow> http_result"
  lun_ok_after :: "nat option"

text \<open>
  What a call of \<^verbatim>\<open>upload_disk_image\<close> does: the requests it issues, the phase in
  which the finalize wait ended, and how the call ends. A \<open>result\<close> of \<open>None\<close> is
  a call that never returns; its trace then holds the requests issued before the poll
  loop that never ends.
\<close>

record upload_outcome =
  trace :: "event list"
  terminal :: "ImageTransferPhase option"
  result :: "(error + bool) option"

text \<open>
  Both poll loops have the shape
  \<^verbatim>\<open>while busy(transfer.phase): time.sleep(poll_interval); transfer = transfer_service.get()\<close>.
  The loop returns the number of answers consumed so far and the last transfer.
\<close>

partial_function (option) poll_while ::
  "(ImageTransferPhase \<Rightarrow> bool) \<Rightarrow> (nat \<Rightarrow> ImageTransfer) \<Rightarrow> nat \<Rightarrow> ImageTransfer
     \<Rightarrow> (nat \<times> ImageTransfer) option" where
  "poll_while busy get n transfer =
     (if busy (phase transfer) then poll_while busy get (Suc n) (get n)
      else Some (n, transfer))"

declare poll_while.simps [code]

text \<open>Lines 241 to 243.\<close>

definition init_wait ::
  "(nat \<Rightarrow> ImageTransfer) \<Rightarrow> nat \<Rightarrow> ImageTransfer \<Rightarrow> (nat \<times> ImageTransfer) option" where
  "init_wait = poll_while (\<lambda>ph. ph = INITIALIZING)"

text \<open>Lines 283 to 288.\<close>

definition finalize_wait ::
  "(nat \<Rightarrow> ImageTransfer) \<Rightarrow> nat \<Rightarrow> ImageTransfer \<Rightarrow> (nat \<times> ImageTransfer) option" where
  "finalize_wait = poll_while (\<lambda>ph. ph \<in> set [TRANSFERRING, FINALIZING_SUCCESS])"

text \<open>The requests of \<open>n\<close> rounds of a poll loop.\<close>

definition polls :: "nat \<Rightarrow> nat \<Rightarrow> event list" where
  "polls interval n = concat (replicate n [Sleep interval, GetTransfer])"

text \<open>The transfer a poll loop holds after \<open>j\<close> rounds, when it started at answer \<open>n\<close>.\<close>

definition seen :: "(nat \<Rightarrow> ImageTransfer) \<Rightarrow> nat \<Rightarrow> ImageTransfer \<Rightarrow> nat \<Rightarrow> ImageTransfer" where
  "seen get n transfer j = (if j = 0 then transfer else get (n + j - 1))"

definition chunk_size :: int where
  "chunk_size = 1024 * 1024 * 8"

text \<open>
  Lines 268 to 280. The loop returns the requests it issued and the exception it
  raised, if any; \<open>k\<close> counts the requests sent to the proxy.
\<close>

function upload_loop ::
  "(nat \<Rightarrow> http_result) \<Rightarrow> string \<Rightarrow> int \<Rightarrow> int \<Rightarrow> nat \<Rightarrow> event list \<times> error option" where
  "upload_loop resp ticket sz pos k =
     (if pos < sz then
        (let request = [Extend, Put ticket pos (min (pos + chunk_size) sz - 1) sz] in
         case resp k of
           Raised \<Rightarrow> (request, Some TransportError)
         | Status s \<Rightarrow>
             if s \<ge> 400 then (request, Some TransferChunkError)
             else (let (evs, r) = upload_loop resp ticket sz (pos + chunk_size) (Suc k)
                   in (request @ evs, r)))
      else ([], None))"
  by pat_completeness auto
termination
  by (relation "measure (\<lambda>(resp, ticket, sz, pos, k). nat (sz - pos))")
     (auto simp: chunk_size_def)

declare upload_loop.simps [simp del]

text \<open>The proxy accepted a chunk: it answered, with a status below 400.\<close>

definition accepted :: "http_result \<Rightarrow> bool" where
  "accepted r = (case r of Status s \<Rightarrow> s < 400 | Raised \<Rightarrow> False)"

text \<open>The exception of line 279 or of the connection, for an answer that is not accepted.\<close>

definition chunk_error :: "http_result \<Rightarrow> error" where
  "chunk_error r = (case r of Status s \<Rightarrow> TransferChunkError | Raised \<Rightarrow> TransportError)"

definition failed_phases :: "ImageTransferPhase list" where
  "failed_phases = [UNKNOWN, FINISHED_FAILURE, FINALIZING_FAILURE, CANCELLED]"

text \<open>
  Modelled from the spec: the helper \<^verbatim>\<open>wait\<close> of \<^verbatim>\<open>ansible.module_utils.ovirt\<close>,
  which is not part of the module's file. The specification says of it that it polls
  until the condition holds, that it is bounded by the caller-supplied timeout and that
  it fails with TimeoutExceeded when the timeout is exceeded. The first argument is the
  caller's \<^verbatim>\<open>wait\<close> flag, the last one the number of seconds after which the
  condition holds.
\<close>

definition wait :: "bool \<Rightarrow> nat \<Rightarrow> nat option \<Rightarrow> error + unit" where
  "wait enabled limit ok_after =
     (if \<not> enabled then Inr ()
      else case ok_after of
             None \<Rightarrow> Inl TimeoutExceeded
           | Some t \<Rightarrow> if t \<le> limit then Inr () else Inl TimeoutExceeded)"

text \<open>
  How a \<^verbatim>\<open>try\<close> statement ends when its \<^verbatim>\<open>finally\<close> block has completed
  normally: the pending exception is raised again, otherwise execution reaches
  \<^verbatim>\<open>return True\<close> on line 307.
\<close>

definition reraise :: "error option \<Rightarrow> error + bool" where
  "reraise pending = (case pending of Some e \<Rightarrow> Inl e | None \<Rightarrow> Inr True)"

text \<open>
  Lines 281 to 305, the \<^verbatim>\<open>finally\<close> block: \<open>evs\<close> are the requests of the
  \<^verbatim>\<open>try\<close> block, \<open>n\<close> the answers of \<^verbatim>\<open>get\<close> consumed so far, \<open>pending\<close> the
  exception the \<^verbatim>\<open>try\<close> block raised.
\<close>

definition upload_finally ::
  "upload_env \<Rightarrow> module_params \<Rightarrow> event list \<Rightarrow> nat \<Rightarrow> ImageTransfer \<Rightarrow> error option
     \<Rightarrow> upload_outcome" where
  "upload_finally env p evs n transfer pending =
     (case finalize_wait (gets env) n transfer of
        None \<Rightarrow> \<lparr>trace = evs @ [Finalize], terminal = None, result = None\<rparr>
      | Some (m, transfer') \<Rightarrow>
          (let evs' = evs @ Finalize # polls (poll_interval p) (m - n) in
           if phase transfer' \<in> set failed_phases then
             \<lparr>trace = evs', terminal = Some (phase transfer'),
              result = Some (Inl (TransferFailedError (phase transfer')))\<rparr>
           else if truthy (logical_unit p) then
             (case wait (p_wait p) (timeout p) (lun_ok_after env) of
                Inl e \<Rightarrow>
                  \<lparr>trace = evs' @ [WaitDiskOK (timeout p)], terminal = Some (phase transfer'),
                   result = Some (Inl e)\<rparr>
              | Inr _ \<Rightarrow>
                  \<lparr>trace = evs' @ [WaitDiskOK (timeout p)], terminal = Some (phase transfer'),
                   result = Some (reraise pending)\<rparr>)
           else
             \<lparr>trace = evs', terminal = Some (phase transfer'),
              result = Some (reraise pending)\<rparr>))"

text \<open>Lines 226 to 307.\<close>

definition upload_disk_image :: "upload_env \<Rightarrow> module_params \<Rightarrow> upload_outcome" where
  "upload_disk_image env p =
     (case init_wait (gets env) 0 (added env) of
        None \<Rightarrow> \<lparr>trace = [AddTransfer (p_id p)], terminal = None, result = None\<rparr>
      | Some (n, transfer) \<Rightarrow>
          (let (sent, pending) =
                 upload_loop (responses env) (signed_ticket transfer) (image_size env) 0 0
           in upload_finally env p
                (AddTransfer (p_id p) # polls (poll_interval p) n
                   @ Connect (tls_context (auth p)) # sent)
                n transfer pending))"

text \<open>The \<^verbatim>\<open>Content-Range\<close> headers of the \<^verbatim>\<open>PUT\<close> requests of a trace, in order.\<close>

fun content_ranges :: "event list \<Rightarrow> (int \<times> int \<times> int) list" where
  "content_ranges [] = []"
| "content_ranges (Put ticket a b c # evs) = (a, b, c) # content_ranges evs"
| "content_ranges (e # evs) = content_ranges evs"

text \<open>The requests of chunk \<open>k\<close> of a file of \<open>sz\<close> bytes.\<close>

definition chunk_requests :: "string \<Rightarrow> int \<Rightarrow> nat \<Rightarrow> event list" where
  "chunk_requests ticket sz k =
     [Extend, Put ticket (int k * chunk_size) (min ((int k + 1) * chunk_size) sz - 1) sz]"

text \<open>The number of chunks of a file of \<open>sz\<close> bytes: \<open>ceil (sz / chunk_size)\<close>.\<close>

definition chunk_count :: "int \<Rightarrow> nat" where
  "chunk_count sz = nat \<lceil>real_of_int sz / real_of_int chunk_size\<rceil>"

section \<open>Storage placement: \<^verbatim>\<open>DisksModule.update_storage_domains\<close>\<close>

record Disk =
  disk_id :: string
  storage_type :: DiskStorageType
  disk_storage_domains :: "string list"
    \<comment> \<open>the ids of the disk's storage domains, the primary one first\<close>

text \<open>
  The environment of one call: the disk returned by \<^verbatim>\<open>disk_service.get\<close>, the
  storage domains by name (the id of each), and the number of seconds the disk needs to
  report status OK after an action towards the domain with a given id.
\<close>

record placement_env =
  disk :: Disk
  domains :: "string \<Rightarrow> string option"
  ok_after :: "string \<Rightarrow> nat option"

text \<open>
  Modelled from the spec: the helper \<^verbatim>\<open>search_by_name\<close> of
  \<^verbatim>\<open>ansible.module_utils.ovirt\<close>, the name-based search of the management service.
  It answers \<^verbatim>\<open>None\<close> when no entity has the name, which is the case line 485 of
  the driver provides for.
\<close>

definition search_by_name :: "(string \<Rightarrow> 'a option) \<Rightarrow> string \<Rightarrow> 'a option" where
  "search_by_name service name = service name"

text \<open>
  Modelled from the spec: \<^verbatim>\<open>BaseModule.action\<close> of \<^verbatim>\<open>ansible.module_utils.ovirt\<close>.
  The specification says that the action is issued when its condition holds on the
  entity and is skipped otherwise, that an issued action is followed by a wait until the
  disk reports status OK, bounded by the caller-supplied timeout, and that the call
  reports a change exactly when it issued the action. \<open>post\<close> are the requests of
  the caller's \<^verbatim>\<open>post_action\<close>. An exception of the condition is raised by the call.
\<close>

definition action ::
  "module_params \<Rightarrow> action_name \<Rightarrow> error + bool \<Rightarrow> string \<Rightarrow> event list \<Rightarrow> nat option
     \<Rightarrow> event list \<times> (error + bool)" where
  "action p name condition target post settled =
     (case condition of
        Inl e \<Rightarrow> ([], Inl e)
      | Inr c \<Rightarrow>
          if c then
            (let evs = Action name target # post @ [WaitDiskOK (timeout p)] in
             case wait (p_wait p) (timeout p) settled of
               Inl e \<Rightarrow> (evs, Inl e)
             | Inr _ \<Rightarrow> (evs, Inr True))
          else ([], Inr False))"

text \<open>Line 364: \<^verbatim>\<open>lambda d: new_disk_storage.id != d.storage_domains[0].id\<close>.\<close>

definition move_condition :: "string \<Rightarrow> Disk \<Rightarrow> error + bool" where
  "move_condition new_id d =
     (case disk_storage_domains d of
        [] \<Rightarrow> Inl IndexError
      | current # _ \<Rightarrow> Inr (new_id \<noteq> current))"

text \<open>
  Lines 359 to 370. Reading \<^verbatim>\<open>new_disk_storage.id\<close> for the argument
  \<^verbatim>\<open>storage_domain\<close> raises when the search found nothing.
\<close>

definition initiate_move :: "module_params \<Rightarrow> placement_env \<Rightarrow> event list \<times> (error + bool)" where
  "initiate_move p env =
     (case storage_domain p of
        None \<Rightarrow> ([], Inr False)
      | Some name \<Rightarrow>
          if name = [] then ([], Inr False)
          else
            (case search_by_name (domains env) name of
               None \<Rightarrow> ([SearchStorageDomain name], Inl AttributeError)
             | Some new_id \<Rightarrow>
                 (let (evs, r) =
                        action p Move (move_condition new_id (disk env)) new_id
                          [Sleep (poll_interval p)] (ok_after env new_id)
                  in (SearchStorageDomain name # evs, r))))"

text \<open>
  Lines 373 to 382, the loop over \<^verbatim>\<open>storage_domains\<close>. In
  \<^verbatim>\<open>changed = changed or self.action(...)['changed']\<close> the right operand, the call
  with its arguments, is evaluated only when \<^verbatim>\<open>changed\<close> is false.
\<close>

fun copy_disks ::
  "module_params \<Rightarrow> placement_env \<Rightarrow> bool \<Rightarrow> string list \<Rightarrow> event list \<times> (error + bool)" where
  "copy_disks p env changed [] = ([], Inr changed)"
| "copy_disks p env changed (sd # sds) =
     (let new_disk_storage = search_by_name (domains env) sd in
      if changed then
        (let (evs, r) = copy_disks p env changed sds
         in (SearchStorageDomain sd # evs, r))
      else
        (case new_disk_storage of
           None \<Rightarrow> ([SearchStorageDomain sd], Inl AttributeError)
         | Some new_id \<Rightarrow>
             (case action p Copy (Inr True) new_id [] (ok_after env new_id) of
                (evs, Inl e) \<Rightarrow> (SearchStorageDomain sd # evs, Inl e)
              | (evs, Inr c) \<Rightarrow>
                  (let (evs', r) = copy_disks p env c sds
                   in (SearchStorageDomain sd # evs @ evs', r)))))"

text \<open>Lines 348 to 384.\<close>

definition update_storage_domains ::
  "module_params \<Rightarrow> placement_env \<Rightarrow> event list \<times> (error + bool)" where
  "update_storage_domains p env =
     (if storage_type (disk env) \<noteq> IMAGE then ([GetDisk], Inr False)
      else
        (case initiate_move p env of
           (evs, Inl e) \<Rightarrow> (GetDisk # evs, Inl e)
         | (evs, Inr changed) \<Rightarrow>
             if truthy (storage_domains p) then
               (let (evs', r) = copy_disks p env changed (case storage_domains p of Some sds \<Rightarrow> sds | None \<Rightarrow> [])
                in (GetDisk # evs @ evs', r))
             else (GetDisk # evs, Inr changed)))"

text \<open>The targets of the actions of one kind in a trace, in order.\<close>

fun actions :: "action_name \<Rightarrow> event list \<Rightarrow> string list" where
  "actions name [] = []"
| "actions name (Action name' target # evs) =
     (if name' = name then target # actions name evs else actions name evs)"
| "actions name (e # evs) = actions name evs"

section \<open>The driver: \<^verbatim>\<open>main\<close>\<close>

text \<open>The result dictionary of a reconciler call: the entity's id and the change flag.\<close>

record ret =
  ret_id :: string
  changed :: bool

datatype exit = ExitJson ret | FailJson error

text \<open>
  The environment of one run of the driver: the LUN disks of the service, each as its
  disk id and the id of its logical unit; what the service answers to the creation and
  to the removal of the disk; the environments of the placement and of the upload; the
  VMs by name (the id of each); what the service answers to the creation and to the
  removal of the attachment; the number of seconds after which the attached disk
  reports status OK.
\<close>

record main_env =
  lun_disks :: "(string \<times> string) list"
  created :: ret
  removed :: ret
  placement :: placement_env
  transfer :: upload_env
  vms :: "string \<Rightarrow> string option"
  attachment_created :: ret
  attachment_removed :: ret
  attached_ok_after :: "nat option"

text \<open>
  What a run of the driver does: the requests it issues and how it ends. A
  \<open>m_result\<close> of \<open>None\<close> is a run that never ends.
\<close>

record main_outcome =
  m_trace :: "event list"
  m_result :: "exit option"

text \<open>Lines 214 to 223; the result is the id of the disk found.\<close>

definition search_by_lun :: "(string \<times> string) list \<Rightarrow> string option \<Rightarrow> string option" where
  "search_by_lun disks lun_id =
     (case filter (\<lambda>(d, l). Some l = lun_id) disks of
        [] \<Rightarrow> None
      | (d, l) # _ \<Rightarrow> Some d)"

text \<open>Lines 454 to 456.\<close>

definition find_lun_disk :: "module_params \<Rightarrow> main_env \<Rightarrow> event list \<times> string option" where
  "find_lun_disk p env =
     (case logical_unit p of
        None \<Rightarrow> ([], None)
      | Some lun \<Rightarrow>
          if lun = [] then ([], None)
          else ([SearchByLun (map_of lun ''id'')],
                search_by_lun (lun_disks env) (map_of lun ''id'')))"

text \<open>
  Modelled from the spec: \<^verbatim>\<open>create\<close> and \<^verbatim>\<open>remove\<close> of the Entity Reconciler
  (\<^verbatim>\<open>BaseModule\<close> of \<^verbatim>\<open>ansible.module_utils.ovirt\<close>). The specification says that
  they return whether a change occurred and the entity's identity. A reconciler is
  constructed with a change flag (line 497 passes the flag of the disk's result); it
  reports a change when it was constructed with one or when its own call made one.
\<close>

definition reconciled :: "bool \<Rightarrow> ret \<Rightarrow> ret" where
  "reconciled seed answer = answer\<lparr>changed := seed \<or> changed answer\<rparr>"

text \<open>
  Lines 460 to 476. The declared state is one of four values, so the branch of
  \<^verbatim>\<open>elif state == 'absent'\<close> is the remaining one. A result of \<open>None\<close> is an
  upload that never returns.
\<close>

definition manage_disk ::
  "module_params \<Rightarrow> main_env \<Rightarrow> string option \<Rightarrow> event list \<times> (error + ret) option" where
  "manage_disk p env found_disk =
     (if p_state p = present \<or> p_state p = detached \<or> p_state p = attached then
        (let ret = reconciled False (created env);
             is_new_disk = changed ret;
             (evs, placed) =
               (if changed ret then ([], Inr True)
                else update_storage_domains p (placement env))
         in case placed of
              Inl e \<Rightarrow> (DiskCreate # evs, Some (Inl e))
            | Inr c \<Rightarrow>
                (let ret = ret\<lparr>changed := c\<rparr>;
                     p' = p\<lparr>p_id := Some (case found_disk of None \<Rightarrow> ret_id ret | Some d \<Rightarrow> d)\<rparr>
                 in if truthy (image_path p) \<and> (is_new_disk \<or> force p) then
                      (let up = upload_disk_image (transfer env) p' in
                       case result up of
                         None \<Rightarrow> (DiskCreate # evs @ trace up, None)
                       | Some (Inl e) \<Rightarrow> (DiskCreate # evs @ trace up, Some (Inl e))
                       | Some (Inr uploaded) \<Rightarrow>
                           (DiskCreate # evs @ trace up,
                            Some (Inr (ret\<lparr>changed := changed ret \<or> uploaded\<rparr>))))
                    else (DiskCreate # evs, Some (Inr ret))))
      else ([DiskRemove], Some (Inr (reconciled False (removed env)))))"

text \<open>
  Lines 479 to 510. The condition of line 479 is
  \<^verbatim>\<open>vm_id is not None or (vm_name is not None and state != 'absent')\<close>:
  \<^verbatim>\<open>and\<close> binds tighter than \<^verbatim>\<open>or\<close>.
\<close>

definition manage_attachment ::
  "module_params \<Rightarrow> main_env \<Rightarrow> ret \<Rightarrow> event list \<times> (error + ret)" where
  "manage_attachment p env ret =
     (if vm_id p \<noteq> None \<or> (vm_name p \<noteq> None \<and> p_state p \<noteq> absent) then
        (let (evs, found) =
               (case vm_id p of
                  Some v \<Rightarrow> ([], Some v)
                | None \<Rightarrow>
                    (case vm_name p of
                       Some name \<Rightarrow> ([SearchVm name], search_by_name (vms env) name)
                     | None \<Rightarrow> ([], None)))
         in case found of
              None \<Rightarrow> (evs, Inl ReferenceNotFoundError)
            | Some v \<Rightarrow>
                (let seed = changed ret in
                 if p_state p = present \<or> p_state p = attached then
                   (let ret' = reconciled seed (attachment_created env);
                        evs' = evs @ [LocateAttachments v, AttachmentCreate seed]
                    in if logical_unit p = None then
                         (case wait (p_wait p) (timeout p) (attached_ok_after env) of
                            Inl e \<Rightarrow> (evs' @ [WaitDiskOK (timeout p)], Inl e)
                          | Inr _ \<Rightarrow> (evs' @ [WaitDiskOK (timeout p)], Inr ret'))
                       else (evs', Inr ret'))
                 else if p_state p = detached then
                   (evs @ [LocateAttachments v, AttachmentRemove seed],
                    Inr (reconciled seed (attachment_removed env)))
                 else (evs @ [LocateAttachments v], Inr ret)))
      else ([], Inr ret))"

text \<open>
  Lines 443 to 516: an exception becomes \<^verbatim>\<open>fail_json\<close>, and the connection is
  closed on every path that ends.
\<close>

definition main :: "module_params \<Rightarrow> main_env \<Rightarrow> main_outcome" where
  "main p env =
     (let (evs0, found_disk) = find_lun_disk p env;
          (evs1, managed) = manage_disk p env found_disk
      in case managed of
           None \<Rightarrow> \<lparr>m_trace = evs0 @ evs1, m_result = None\<rparr>
         | Some (Inl e) \<Rightarrow>
             \<lparr>m_trace = evs0 @ evs1 @ [CloseConnection], m_result = Some (FailJson e)\<rparr>
         | Some (Inr ret) \<Rightarrow>
             (case manage_attachment p env ret of
                (evs2, Inl e) \<Rightarrow>
                  \<lparr>m_trace = evs0 @ evs1 @ evs2 @ [CloseConnection],
                   m_result = Some (FailJson e)\<rparr>
              | (evs2, Inr ret') \<Rightarrow>
                  \<lparr>m_trace = evs0 @ evs1 @ evs2 @ [CloseConnection],
                   m_result = Some (ExitJson ret')\<rparr>))"

section \<open>Example runs\<close>

text \<open>Environments and parameters at which the theorems below are evaluated.\<close>

definition transfer_in :: "ImageTransferPhase \<Rightarrow> ImageTransfer" where
  "transfer_in ph = \<lparr>phase = ph, signed_ticket = ''ticket'', proxy_path = ''/images/d1''\<rparr>"

definition example_params :: module_params where
  "example_params =
     \<lparr>p_state = present, p_id = Some ''d1'', vm_name = None, vm_id = None,
      storage_domain = None, storage_domains = None, logical_unit = None,
      image_path = Some ''/tmp/disk.qcow2'', force = False,
      auth = \<lparr>insecure = False, ca_file = Some ''/etc/pki/ovirt-engine/ca.pem''\<rparr>,
      p_wait = True, timeout = 180, poll_interval = 3\<rparr>"

text \<open>A service that leaves INITIALIZING after two polls and finishes after two more.\<close>

definition smooth_service :: "nat \<Rightarrow> ImageTransfer" where
  "smooth_service k =
     (if k < 2 then transfer_in INITIALIZING
      else if k < 4 then transfer_in TRANSFERRING
      else transfer_in FINISHED_SUCCESS)"

definition accept_all :: "nat \<Rightarrow> http_result" where
  "accept_all k = Status 200"

definition reject_second :: "nat \<Rightarrow> http_result" where
  "reject_second k = (if k = 1 then Status 500 else Status 200)"

definition reject_all :: "nat \<Rightarrow> http_result" where
  "reject_all k = Status 500"

text \<open>An image of 20000000 bytes: three chunks.\<close>

definition example_upload :: upload_env where
  "example_upload =
     \<lparr>image_size = 20000000, added = transfer_in INITIALIZING, gets = smooth_service,
      responses = accept_all, lun_ok_after = Some 200\<rparr>"

text \<open>A service whose transfer stays in one phase for ever.\<close>

definition stuck_service :: "ImageTransferPhase \<Rightarrow> nat \<Rightarrow> ImageTransfer" where
  "stuck_service ph k = transfer_in ph"

definition stuck_upload :: "ImageTransferPhase \<Rightarrow> upload_env" where
  "stuck_upload ph =
     \<lparr>image_size = 20000000, added = transfer_in ph, gets = stuck_service ph,
      responses = accept_all, lun_ok_after = Some 200\<rparr>"

text \<open>A service whose transfer is cancelled while the upload is finalized.\<close>

definition cancelled_service :: "nat \<Rightarrow> ImageTransfer" where
  "cancelled_service k =
     (if k < 2 then transfer_in INITIALIZING
      else if k < 4 then transfer_in TRANSFERRING
      else transfer_in CANCELLED)"

definition cancelled_upload :: upload_env where
  "cancelled_upload = example_upload\<lparr>gets := cancelled_service\<rparr>"

definition rejected_upload :: upload_env where
  "rejected_upload = example_upload\<lparr>responses := reject_second\<rparr>"

definition lun_params :: module_params where
  "lun_params = example_params\<lparr>logical_unit := Some [(''id'', ''lun-1'')]\<rparr>"

text \<open>An image-backed disk on the domain \<^verbatim>\<open>sd-data\<close>, and three storage domains.\<close>

definition example_placement :: placement_env where
  "example_placement =
     \<lparr>disk = \<lparr>disk_id = ''d1'', storage_type = IMAGE, disk_storage_domains = [''sd-data'']\<rparr>,
      domains = map_of [(''data'', ''sd-data''), (''backup'', ''sd-backup''),
                        (''archive'', ''sd-archive'')],
      ok_after = (\<lambda>target. Some 10)\<rparr>"

definition lun_placement :: placement_env where
  "lun_placement =
     example_placement\<lparr>disk := \<lparr>disk_id = ''d1'', storage_type = LUN, disk_storage_domains = []\<rparr>\<rparr>"

definition move_params :: "string \<Rightarrow> module_params" where
  "move_params name = example_params\<lparr>storage_domain := Some name\<rparr>"

definition copy_params :: "string list \<Rightarrow> module_params" where
  "copy_params names = example_params\<lparr>storage_domains := Some names\<rparr>"

text \<open>An existing disk, and one VM.\<close>

definition example_main :: main_env where
  "example_main =
     \<lparr>lun_disks = [],
      created = \<lparr>ret_id = ''d1'', changed = False\<rparr>,
      removed = \<lparr>ret_id = ''d1'', changed = True\<rparr>,
      placement = example_placement,
      transfer = example_upload,
      vms = map_of [(''vm1'', ''vm-1'')],
      attachment_created = \<lparr>ret_id = ''d1'', changed = False\<rparr>,
      attachment_removed = \<lparr>ret_id = ''d1'', changed = True\<rparr>,
      attached_ok_after = Some 5\<rparr>"

definition absent_params :: "string option \<Rightarrow> string option \<Rightarrow> module_params" where
  "absent_params v name = example_params\<lparr>p_state := absent, vm_id := v, vm_name := name\<rparr>"

definition force_params :: module_params where
  "force_params = example_params\<lparr>force := True\<rparr>"


section \<open>The trust store of the upload connection\<close>

text \<open>
  C1. The claim is that, when the auth settings are not marked insecure and a CA file
  is supplied, the trust store is loaded from the supplied path. Here the program is
  evaluated on auth settings that are not insecure and name the CA file
  \<^verbatim>\<open>/etc/pki/ovirt-engine/ca.pem\<close>: the only file loaded into the trust store is the
  fixed name \<^verbatim>\<open>ca.pem\<close> of line 257, and the supplied path is not loaded.
\<close>

theorem C1_ca_file_hardcoded:
  "verify_locations
     (tls_context \<lparr>insecure = False, ca_file = Some ''/etc/pki/ovirt-engine/ca.pem''\<rparr>)
     = [''ca.pem'']
   \<and> ''/etc/pki/ovirt-engine/ca.pem''
       \<notin> set (verify_locations
           (tls_context \<lparr>insecure = False, ca_file = Some ''/etc/pki/ovirt-engine/ca.pem''\<rparr>))"
  by (simp add: tls_context_def create_default_context_def truthy_def)

section \<open>The chunks of the upload loop\<close>

lemma chunk_size_pos: "0 < chunk_size"
  by (simp add: chunk_size_def)

lemma lt_chunk_count: "(int k * chunk_size < sz) = (k < chunk_count sz)"
proof -
  have c: "0 < real_of_int chunk_size"
    using chunk_size_pos by simp
  have "(k < chunk_count sz) = (int k < \<lceil>real_of_int sz / real_of_int chunk_size\<rceil>)"
    by (simp add: chunk_count_def zless_nat_eq_int_zless)
  also have "\<dots> = (real_of_int (int k) < real_of_int sz / real_of_int chunk_size)"
    by (simp add: less_ceiling_iff)
  also have "\<dots> = (real_of_int (int k) * real_of_int chunk_size < real_of_int sz)"
    using c by (simp add: pos_less_divide_eq)
  also have "\<dots> = (int k * chunk_size < sz)"
    by (metis of_int_less_iff of_int_mult)
  finally show ?thesis by simp
qed

lemma upload_loop_accepted:
  assumes "\<forall>j. k \<le> j \<and> j < chunk_count sz \<longrightarrow> accepted (resp j)"
  shows "upload_loop resp ticket sz (int k * chunk_size) k
           = (concat (map (chunk_requests ticket sz) [k..<chunk_count sz]), None)"
  using assms
proof (induction "chunk_count sz - k" arbitrary: k)
  case 0
  then have "\<not> int k * chunk_size < sz"
    by (simp add: lt_chunk_count)
  then show ?case
    using 0 by (subst upload_loop.simps) simp
next
  case (Suc d)
  then have lt: "k < chunk_count sz" by linarith
  then have pos: "int k * chunk_size < sz"
    by (simp add: lt_chunk_count)
  have "accepted (resp k)"
    using Suc.prems lt by simp
  then obtain s where s: "resp k = Status s" "s < 400"
    by (cases "resp k") (simp_all add: accepted_def)
  have next_pos: "int k * chunk_size + chunk_size = int (Suc k) * chunk_size"
    by (simp add: algebra_simps)
  have "upload_loop resp ticket sz (int (Suc k) * chunk_size) (Suc k)
           = (concat (map (chunk_requests ticket sz) [Suc k..<chunk_count sz]), None)"
    using Suc.hyps(1) [of "Suc k"] Suc.hyps(2) Suc.prems by simp
  then have ih: "upload_loop resp ticket sz (int k * chunk_size + chunk_size) (Suc k)
           = (concat (map (chunk_requests ticket sz) [Suc k..<chunk_count sz]), None)"
    by (simp only: next_pos)
  show ?case
    using pos s lt ih
    by (subst upload_loop.simps)
       (simp add: upt_conv_Cons chunk_requests_def distrib_right)
qed

lemma upload_loop_rejected:
  assumes "\<forall>j. k \<le> j \<and> j < f \<longrightarrow> accepted (resp j)"
    and "\<not> accepted (resp f)" and "k \<le> f" and "f < chunk_count sz"
  shows "upload_loop resp ticket sz (int k * chunk_size) k
           = (concat (map (chunk_requests ticket sz) [k..<Suc f]), Some (chunk_error (resp f)))"
  using assms
proof (induction "f - k" arbitrary: k)
  case 0
  then have k: "k = f" by simp
  have pos: "int k * chunk_size < sz"
    using 0 k by (simp add: lt_chunk_count)
  show ?case
    using pos 0(3) k
    by (subst upload_loop.simps)
       (auto simp: accepted_def chunk_error_def chunk_requests_def distrib_right
             split: http_result.splits)
next
  case (Suc d)
  then have lt: "k < f" by linarith
  then have pos: "int k * chunk_size < sz"
    using Suc.prems by (simp add: lt_chunk_count)
  have "accepted (resp k)"
    using Suc.prems lt by simp
  then obtain s where s: "resp k = Status s" "s < 400"
    by (cases "resp k") (simp_all add: accepted_def)
  have next_pos: "int k * chunk_size + chunk_size = int (Suc k) * chunk_size"
    by (simp add: algebra_simps)
  have "upload_loop resp ticket sz (int (Suc k) * chunk_size) (Suc k)
           = (concat (map (chunk_requests ticket sz) [Suc k..<Suc f]), Some (chunk_error (resp f)))"
    using Suc.hyps(1) [of "Suc k"] Suc.hyps(2) Suc.prems lt by simp
  then have ih: "upload_loop resp ticket sz (int k * chunk_size + chunk_size) (Suc k)
           = (concat (map (chunk_requests ticket sz) [Suc k..<Suc f]), Some (chunk_error (resp f)))"
    by (simp only: next_pos)
  have up: "[k..<Suc f] = k # [Suc k..<Suc f]"
    using lt by (simp add: upt_conv_Cons del: upt_Suc)
  show ?case
    using pos s ih
    by (subst upload_loop.simps)
       (simp add: up chunk_requests_def distrib_right del: upt_Suc)
qed

section \<open>The poll loops\<close>

lemma seen_Suc: "seen get (Suc n) (get n) j = seen get n t (Suc j)"
  by (simp add: seen_def)

lemma poll_while_returns:
  assumes "\<forall>j<k. busy (phase (seen get n t j))"
    and "\<not> busy (phase (seen get n t k))"
  shows "poll_while busy get n t = Some (n + k, seen get n t k)"
  using assms
proof (induction k arbitrary: n t)
  case 0
  then show ?case
    by (subst poll_while.simps) (simp add: seen_def)
next
  case (Suc k)
  from Suc.prems(1) have busy: "busy (phase t)"
    by (auto simp: seen_def)
  have "\<forall>j<k. busy (phase (seen get (Suc n) (get n) j))"
    using Suc.prems(1) by (simp add: seen_Suc [where t = t])
  moreover have "\<not> busy (phase (seen get (Suc n) (get n) k))"
    using Suc.prems(2) by (simp add: seen_Suc [where t = t])
  ultimately have "poll_while busy get (Suc n) (get n)
      = Some (Suc n + k, seen get (Suc n) (get n) k)"
    by (rule Suc.IH)
  then show ?case
    using busy by (subst poll_while.simps) (simp add: seen_Suc [where t = t])
qed

lemma poll_while_Some:
  assumes "poll_while busy get n t = Some r"
  shows "\<exists>k. r = (n + k, seen get n t k) \<and> \<not> busy (phase (seen get n t k))
           \<and> (\<forall>j<k. busy (phase (seen get n t j)))"
proof (rule poll_while.raw_induct
    [where P = "\<lambda>busy get n t r. \<exists>k. r = (n + k, seen get n t k)
        \<and> \<not> busy (phase (seen get n t k)) \<and> (\<forall>j<k. busy (phase (seen get n t j)))",
     OF _ assms])
  fix poll busy get n t r
  assume IH: "\<And>busy get n t r. poll busy get n t = Some r \<Longrightarrow>
      \<exists>k. r = (n + k, seen get n t k) \<and> \<not> busy (phase (seen get n t k))
        \<and> (\<forall>j<k. busy (phase (seen get n t j)))"
  assume eq: "(if busy (phase t) then poll busy get (Suc n) (get n) else Some (n, t)) = Some r"
  show "\<exists>k. r = (n + k, seen get n t k) \<and> \<not> busy (phase (seen get n t k))
      \<and> (\<forall>j<k. busy (phase (seen get n t j)))"
  proof (cases "busy (phase t)")
    case False
    with eq have "r = (n, t)" by simp
    with False show ?thesis
      by (intro exI [of _ 0]) (simp add: seen_def)
  next
    case True
    with eq have "poll busy get (Suc n) (get n) = Some r" by simp
    from IH [OF this] obtain k where k: "r = (Suc n + k, seen get (Suc n) (get n) k)"
      "\<not> busy (phase (seen get (Suc n) (get n) k))"
      "\<forall>j<k. busy (phase (seen get (Suc n) (get n) j))"
      by blast
    have "\<forall>j<Suc k. busy (phase (seen get n t j))"
    proof (intro allI impI)
      fix j assume "j < Suc k"
      show "busy (phase (seen get n t j))"
      proof (cases j)
        case 0
        with True show ?thesis by (simp add: seen_def)
      next
        case (Suc i)
        with \<open>j < Suc k\<close> k(3) show ?thesis
          by (simp add: seen_Suc [where t = t])
      qed
    qed
    with k(1,2) show ?thesis
      by (intro exI [of _ "Suc k"]) (simp add: seen_Suc [where t = t])
  qed
qed

lemma poll_while_None_iff:
  "(poll_while busy get n t = None) = (\<forall>j. busy (phase (seen get n t j)))"
proof
  assume none: "poll_while busy get n t = None"
  show "\<forall>j. busy (phase (seen get n t j))"
  proof (rule ccontr)
    assume "\<not> (\<forall>j. busy (phase (seen get n t j)))"
    then obtain i where i: "\<not> busy (phase (seen get n t i))" by blast
    define k where "k = (LEAST i. \<not> busy (phase (seen get n t i)))"
    have "\<not> busy (phase (seen get n t k))"
      unfolding k_def using i by (rule LeastI)
    moreover have "\<forall>j<k. busy (phase (seen get n t j))"
      unfolding k_def using not_less_Least by blast
    ultimately have "poll_while busy get n t = Some (n + k, seen get n t k)"
      using poll_while_returns by blast
    with none show False by simp
  qed
next
  assume all: "\<forall>j. busy (phase (seen get n t j))"
  show "poll_while busy get n t = None"
  proof (cases "poll_while busy get n t")
    case None
    then show ?thesis .
  next
    case (Some r)
    from poll_while_Some [OF this] all show ?thesis by blast
  qed
qed

section \<open>The requests of an upload\<close>

lemma content_ranges_append:
  "content_ranges (xs @ ys) = content_ranges xs @ content_ranges ys"
  by (induction xs rule: content_ranges.induct) simp_all

lemma content_ranges_polls: "content_ranges (polls i n) = []"
  by (induction n) (simp_all add: polls_def)

lemma content_ranges_chunks:
  "content_ranges (concat (map (chunk_requests ticket sz) ks))
     = map (\<lambda>k. (int k * chunk_size, min ((int k + 1) * chunk_size) sz - 1, sz)) ks"
  by (induction ks) (simp_all add: chunk_requests_def)

lemma set_polls: "set (polls i n) \<subseteq> {Sleep i, GetTransfer}"
  by (induction n) (auto simp: polls_def)

lemma upload_loop_no_finalize:
  "Finalize \<notin> set (fst (upload_loop resp ticket sz pos k))"
proof (induction resp ticket sz pos k rule: upload_loop.induct)
  case (1 resp ticket sz pos k)
  show ?case
  proof (cases "pos < sz")
    case False
    then show ?thesis by (subst upload_loop.simps) simp
  next
    case True
    show ?thesis
    proof (cases "resp k")
      case Raised
      with True show ?thesis by (subst upload_loop.simps) auto
    next
      case (Status s)
      show ?thesis
      proof (cases "s \<ge> 400")
        case rejected: True
        with True Status show ?thesis by (subst upload_loop.simps) auto
      next
        case ok: False
        from 1 [OF True refl Status ok] True Status ok show ?thesis
          by (subst upload_loop.simps) (auto split: prod.splits)
      qed
    qed
  qed
qed

lemma upload_loop_pending:
  "snd (upload_loop resp ticket sz pos k) \<in> {None, Some TransferChunkError, Some TransportError}"
proof (induction resp ticket sz pos k rule: upload_loop.induct)
  case (1 resp ticket sz pos k)
  show ?case
  proof (cases "pos < sz")
    case False
    then show ?thesis by (subst upload_loop.simps) simp
  next
    case True
    show ?thesis
    proof (cases "resp k")
      case Raised
      with True show ?thesis by (subst upload_loop.simps) auto
    next
      case (Status s)
      show ?thesis
      proof (cases "s \<ge> 400")
        case rejected: True
        with True Status show ?thesis by (subst upload_loop.simps) auto
      next
        case ok: False
        from 1 [OF True refl Status ok] True Status ok show ?thesis
          by (subst upload_loop.simps) (auto split: prod.splits)
      qed
    qed
  qed
qed

lemma chunk_count_pos: "0 < sz \<Longrightarrow> 0 < chunk_count sz"
  using lt_chunk_count [of 0 sz] by simp

lemma chunk_count_covers: "sz \<le> int (chunk_count sz) * chunk_size"
  using lt_chunk_count [of "chunk_count sz" sz] by simp

text \<open>
  C5, as amended. For a file of \<open>sz > 0\<close> bytes and the fixed chunk size of 8 MiB, when
  the proxy accepts every chunk (it answers each \<^verbatim>\<open>PUT\<close> with a status below 400),
  the upload loop issues exactly \<open>ceil (sz / chunk_size)\<close> \<^verbatim>\<open>PUT\<close> requests, each
  preceded by one extend call; the \<open>k\<close>-th carries the range
  \<open>k * chunk_size\<close> to \<open>min ((k + 1) * chunk_size) sz - 1\<close> of \<open>sz\<close>, and the range of
  the last request ends at \<open>sz - 1\<close>.
\<close>

theorem C5_chunks_when_accepted:
  assumes "0 < sz" and "\<forall>k<chunk_count sz. accepted (resp k)"
  shows "chunk_size = 8 * 1024 * 1024
    \<and> chunk_count sz = nat \<lceil>real_of_int sz / real_of_int chunk_size\<rceil>
    \<and> upload_loop resp ticket sz 0 0
        = (concat (map (\<lambda>k. [Extend,
              Put ticket (int k * chunk_size) (min ((int k + 1) * chunk_size) sz - 1) sz])
            [0..<chunk_count sz]), None)
    \<and> length (content_ranges (fst (upload_loop resp ticket sz 0 0))) = chunk_count sz
    \<and> fst (snd (last (content_ranges (fst (upload_loop resp ticket sz 0 0))))) = sz - 1"
proof -
  have all: "\<forall>j. 0 \<le> j \<and> j < chunk_count sz \<longrightarrow> accepted (resp j)"
    using assms(2) by simp
  have loop: "upload_loop resp ticket sz 0 0
      = (concat (map (chunk_requests ticket sz) [0..<chunk_count sz]), None)"
    using upload_loop_accepted [OF all, of ticket] by simp
  have ranges: "content_ranges (fst (upload_loop resp ticket sz 0 0))
      = map (\<lambda>k. (int k * chunk_size, min ((int k + 1) * chunk_size) sz - 1, sz))
          [0..<chunk_count sz]"
    by (simp add: loop content_ranges_chunks)
  have pos: "0 < chunk_count sz"
    using assms(1) by (rule chunk_count_pos)
  then have up: "[0..<chunk_count sz] \<noteq> []" by simp
  have "int (chunk_count sz - 1) + 1 = int (chunk_count sz)"
    using pos by simp
  then have "min ((int (chunk_count sz - 1) + 1) * chunk_size) sz = sz"
    using chunk_count_covers [of sz] by simp
  then have last: "fst (snd (last (content_ranges (fst (upload_loop resp ticket sz 0 0))))) = sz - 1"
    using up pos by (simp add: ranges last_map del: upt_eq_Nil_conv)
  have req: "chunk_requests ticket sz = (\<lambda>k. [Extend,
              Put ticket (int k * chunk_size) (min ((int k + 1) * chunk_size) sz - 1) sz])"
    by (rule ext) (simp add: chunk_requests_def)
  have c1: "chunk_size = 8 * 1024 * 1024"
    by (simp add: chunk_size_def)
  have c2: "chunk_count sz = nat \<lceil>real_of_int sz / real_of_int chunk_size\<rceil>"
    by (simp add: chunk_count_def)
  have c3: "upload_loop resp ticket sz 0 0
        = (concat (map (\<lambda>k. [Extend,
              Put ticket (int k * chunk_size) (min ((int k + 1) * chunk_size) sz - 1) sz])
            [0..<chunk_count sz]), None)"
    using loop by (simp only: req)
  have c4: "length (content_ranges (fst (upload_loop resp ticket sz 0 0))) = chunk_count sz"
    by (simp only: ranges length_map length_upt diff_zero)
  show ?thesis
    using c1 c2 c3 c4 last by (intro conjI)
qed

lemma chunk_count_example: "chunk_count 20000000 = 3"
  by (simp add: chunk_count_def chunk_size_def)

text \<open>C5 at a file of 20000000 bytes, three chunks, all accepted.\<close>

theorem C5_chunks_witness:
  "(0::int) < 20000000
   \<and> upload_loop accept_all ''ticket'' 20000000 0 0
       = ([Extend, Put ''ticket'' 0 8388607 20000000,
           Extend, Put ''ticket'' 8388608 16777215 20000000,
           Extend, Put ''ticket'' 16777216 19999999 20000000], None)"
proof -
  have size: "(0::int) < 20000000" by simp
  have ok: "\<forall>k<chunk_count 20000000. accepted (accept_all k)"
    by (simp add: accepted_def accept_all_def)
  have up: "[0..<3] = [0, 1, 2]"
    by (simp add: upt_rec)
  show ?thesis
    using C5_chunks_when_accepted [OF size ok, of "''ticket''"]
    by (simp add: chunk_count_example up chunk_size_def)
qed

text \<open>
  C5 as stated fails when the proxy rejects a chunk: for a file of 20000000 bytes
  whose first chunk is answered with status 500, one \<^verbatim>\<open>PUT\<close> is issued, not
  \<open>ceil (20000000 / chunk_size) = 3\<close>.
\<close>

theorem C5_rejected_chunk_counterexample:
  "length (content_ranges (fst (upload_loop reject_all ''ticket'' 20000000 0 0))) = 1
   \<and> nat \<lceil>real_of_int 20000000 / real_of_int chunk_size\<rceil> = 3"
  by (simp add: upload_loop.simps reject_all_def chunk_size_def)

lemma finalize_not_poll: "Finalize \<notin> set (polls i n)"
  using set_polls [of i n] by auto

lemma extend_not_poll: "Extend \<notin> set (polls i n)"
  using set_polls [of i n] by auto

text \<open>The trace of a call whose init wait ends.\<close>

lemma upload_trace:
  assumes "init_wait (gets env) 0 (added env) = Some (n, t)"
  shows "\<exists>after. trace (upload_disk_image env p)
            = (AddTransfer (p_id p) # polls (poll_interval p) n
                 @ Connect (tls_context (auth p))
                 # fst (upload_loop (responses env) (signed_ticket t) (image_size env) 0 0))
              @ Finalize # after
          \<and> content_ranges after = [] \<and> Extend \<notin> set after"
  using assms
  by (auto simp: upload_disk_image_def upload_finally_def Let_def content_ranges_append
      content_ranges_polls extend_not_poll split: prod.splits option.splits sum.splits)

lemma upload_result:
  assumes "init_wait (gets env) 0 (added env) = Some (n, t)"
    and "snd (upload_loop (responses env) (signed_ticket t) (image_size env) 0 0) = Some e"
  shows "result (upload_disk_image env p) \<noteq> Some (Inr True)"
  using assms
  by (auto simp: upload_disk_image_def upload_finally_def Let_def reraise_def
      split: prod.splits option.splits sum.splits)

text \<open>
  C6. Whenever the upload loop is reached (the init wait has ended), the call issues
  the finalize request after the requests of the loop, however the loop ended, and
  sends no chunk and no extend call after it. If the proxy answers the \<^verbatim>\<open>PUT\<close> of
  chunk \<open>f\<close> with a status of 400 or more, or the connection raises there, and the
  chunks before it were accepted, then exactly the chunks \<open>0\<close> to \<open>f\<close> were sent, no
  further one, and the call does not return normally.
\<close>

theorem C6_finalize_always:
  assumes "init_wait (gets env) 0 (added env) = Some (n, t)"
  shows "\<exists>before after.
      trace (upload_disk_image env p) = before @ Finalize # after
    \<and> Finalize \<notin> set before \<and> Extend \<notin> set after \<and> content_ranges after = []
    \<and> (\<forall>f. f < chunk_count (image_size env)
            \<and> (\<forall>j<f. accepted (responses env j))
            \<and> ((\<exists>s. responses env f = Status s \<and> 400 \<le> s) \<or> responses env f = Raised)
          \<longrightarrow> content_ranges before
                = map (\<lambda>k. (int k * chunk_size,
                             min ((int k + 1) * chunk_size) (image_size env) - 1,
                             image_size env)) [0..<Suc f]
              \<and> result (upload_disk_image env p) \<noteq> Some (Inr True))"
proof -
  let ?loop = "upload_loop (responses env) (signed_ticket t) (image_size env) 0 0"
  let ?before = "AddTransfer (p_id p) # polls (poll_interval p) n
                 @ Connect (tls_context (auth p)) # fst ?loop"
  from upload_trace [OF assms, of p] obtain after where
    tr: "trace (upload_disk_image env p) = ?before @ Finalize # after"
    and after: "content_ranges after = []" "Extend \<notin> set after"
    by blast
  have before: "Finalize \<notin> set ?before"
    by (simp add: finalize_not_poll upload_loop_no_finalize)
  have rejected: "content_ranges ?before
                = map (\<lambda>k. (int k * chunk_size,
                             min ((int k + 1) * chunk_size) (image_size env) - 1,
                             image_size env)) [0..<Suc f]
              \<and> result (upload_disk_image env p) \<noteq> Some (Inr True)"
    if f: "f < chunk_count (image_size env)"
      and ok: "\<forall>j<f. accepted (responses env j)"
      and bad: "(\<exists>s. responses env f = Status s \<and> 400 \<le> s) \<or> responses env f = Raised"
    for f
  proof -
    have "\<not> accepted (responses env f)"
      using bad by (auto simp: accepted_def)
    moreover have "\<forall>j. 0 \<le> j \<and> j < f \<longrightarrow> accepted (responses env j)"
      using ok by simp
    ultimately have loop: "?loop
        = (concat (map (chunk_requests (signed_ticket t) (image_size env)) [0..<Suc f]),
           Some (chunk_error (responses env f)))"
      using upload_loop_rejected [of 0 f "responses env" "image_size env" "signed_ticket t"] f
      by simp
    have "content_ranges ?before = content_ranges (fst ?loop)"
      by (simp add: content_ranges_append content_ranges_polls)
    then have "content_ranges ?before
                = map (\<lambda>k. (int k * chunk_size,
                             min ((int k + 1) * chunk_size) (image_size env) - 1,
                             image_size env)) [0..<Suc f]"
      by (simp only: loop fst_conv content_ranges_chunks)
    moreover have "result (upload_disk_image env p) \<noteq> Some (Inr True)"
      using upload_result [OF assms, of _ p] loop by simp
    ultimately show ?thesis by blast
  qed
  show ?thesis
    using tr before after rejected by blast
qed

lemma example_init:
  "init_wait smooth_service 0 (transfer_in INITIALIZING) = Some (3, transfer_in TRANSFERRING)"
  by (simp add: init_wait_def poll_while.simps smooth_service_def transfer_in_def)

lemma rejected_trace:
  "trace (upload_disk_image rejected_upload example_params)
       = [AddTransfer (Some ''d1''), Sleep 3, GetTransfer, Sleep 3, GetTransfer, Sleep 3, GetTransfer,
          Connect (tls_context (auth example_params)),
          Extend, Put ''ticket'' 0 8388607 20000000,
          Extend, Put ''ticket'' 8388608 16777215 20000000,
          Finalize, Sleep 3, GetTransfer, Sleep 3, GetTransfer]"
  by (simp add: upload_disk_image_def rejected_upload_def example_upload_def example_params_def
      init_wait_def finalize_wait_def poll_while.simps smooth_service_def transfer_in_def
      upload_loop.simps reject_second_def chunk_size_def upload_finally_def polls_def
      failed_phases_def truthy_def reraise_def)

lemma rejected_result:
  "result (upload_disk_image rejected_upload example_params) = Some (Inl TransferChunkError)"
  by (simp add: upload_disk_image_def rejected_upload_def example_upload_def example_params_def
      init_wait_def finalize_wait_def poll_while.simps smooth_service_def transfer_in_def
      upload_loop.simps reject_second_def chunk_size_def upload_finally_def polls_def
      failed_phases_def truthy_def reraise_def)

text \<open>
  C6 at an upload of three chunks whose second chunk is answered with status 500: two
  chunks are sent, then the finalize request.
\<close>

theorem C6_finalize_witness:
  "init_wait (gets rejected_upload) 0 (added rejected_upload) = Some (3, transfer_in TRANSFERRING)
   \<and> (\<exists>before after.
        trace (upload_disk_image rejected_upload example_params) = before @ Finalize # after
      \<and> Finalize \<notin> set before \<and> Extend \<notin> set after
      \<and> content_ranges before = [(0, 8388607, 20000000), (8388608, 16777215, 20000000)]
      \<and> content_ranges after = [])
   \<and> trace (upload_disk_image rejected_upload example_params)
       = [AddTransfer (Some ''d1''), Sleep 3, GetTransfer, Sleep 3, GetTransfer, Sleep 3, GetTransfer,
          Connect (tls_context (auth example_params)),
          Extend, Put ''ticket'' 0 8388607 20000000,
          Extend, Put ''ticket'' 8388608 16777215 20000000,
          Finalize, Sleep 3, GetTransfer, Sleep 3, GetTransfer]
   \<and> result (upload_disk_image rejected_upload example_params) = Some (Inl TransferChunkError)"
proof -
  have init: "init_wait (gets rejected_upload) 0 (added rejected_upload)
      = Some (3, transfer_in TRANSFERRING)"
    by (simp add: rejected_upload_def example_upload_def example_init)
  have f: "1 < chunk_count (image_size rejected_upload)
      \<and> (\<forall>j<1. accepted (responses rejected_upload j))
      \<and> ((\<exists>s. responses rejected_upload 1 = Status s \<and> 400 \<le> s)
          \<or> responses rejected_upload 1 = Raised)"
    by (simp add: rejected_upload_def example_upload_def chunk_count_example reject_second_def
        accepted_def)
  have up: "[0..<Suc 1] = [0, 1]"
    by (simp add: upt_rec)
  from C6_finalize_always [OF init, of example_params] obtain before after where
    tr: "trace (upload_disk_image rejected_upload example_params) = before @ Finalize # after"
    and shape: "Finalize \<notin> set before" "Extend \<notin> set after" "content_ranges after = []"
    and rej: "\<forall>f. f < chunk_count (image_size rejected_upload)
            \<and> (\<forall>j<f. accepted (responses rejected_upload j))
            \<and> ((\<exists>s. responses rejected_upload f = Status s \<and> 400 \<le> s)
                \<or> responses rejected_upload f = Raised)
          \<longrightarrow> content_ranges before
                = map (\<lambda>k. (int k * chunk_size,
                             min ((int k + 1) * chunk_size) (image_size rejected_upload) - 1,
                             image_size rejected_upload)) [0..<Suc f]
              \<and> result (upload_disk_image rejected_upload example_params) \<noteq> Some (Inr True)"
    by blast
  from rej f have "content_ranges before
                = map (\<lambda>k. (int k * chunk_size,
                             min ((int k + 1) * chunk_size) (image_size rejected_upload) - 1,
                             image_size rejected_upload)) [0..<Suc 1]
              \<and> result (upload_disk_image rejected_upload example_params) \<noteq> Some (Inr True)"
    by blast
  then have "content_ranges before = [(0, 8388607, 20000000), (8388608, 16777215, 20000000)]"
    and res: "result (upload_disk_image rejected_upload example_params) \<noteq> Some (Inr True)"
    by (simp_all add: up chunk_size_def rejected_upload_def example_upload_def)
  with tr shape init rejected_trace rejected_result show ?thesis by blast
qed

section \<open>How an upload ends\<close>

lemma wait_error: "wait enabled limit settled = Inl e \<Longrightarrow> e = TimeoutExceeded"
  by (auto simp: wait_def split: if_splits option.splits)

lemma reraise_pending:
  "pending \<in> {None, Some TransferChunkError, Some TransportError}
     \<Longrightarrow> reraise pending \<noteq> Inl (TransferFailedError ph)"
  by (auto simp: reraise_def)

lemma finally_terminal:
  assumes "terminal (upload_finally env p evs n t pending) = Some ph"
    and "pending \<in> {None, Some TransferChunkError, Some TransportError}"
  shows "(ph \<in> set failed_phases
            \<longrightarrow> result (upload_finally env p evs n t pending) = Some (Inl (TransferFailedError ph)))
       \<and> (ph \<notin> set failed_phases
            \<longrightarrow> (\<forall>ph'. result (upload_finally env p evs n t pending)
                    \<noteq> Some (Inl (TransferFailedError ph'))))"
proof (cases "finalize_wait (gets env) n t")
  case None
  with assms(1) show ?thesis by (simp add: upload_finally_def)
next
  case (Some r)
  obtain m t' where r: "r = (m, t')" by (cases r)
  show ?thesis
  proof (cases "phase t' \<in> set failed_phases")
    case True
    with Some r assms(1) show ?thesis
      by (simp add: upload_finally_def Let_def)
  next
    case False
    have ph: "ph = phase t'"
      using Some r assms(1) False
      by (simp add: upload_finally_def Let_def split: if_splits sum.splits)
    show ?thesis
    proof (cases "truthy (logical_unit p)")
      case no_lun: False
      with Some r False ph reraise_pending [OF assms(2)] show ?thesis
        by (simp add: upload_finally_def Let_def)
    next
      case lun: True
      show ?thesis
      proof (cases "wait (p_wait p) (timeout p) (lun_ok_after env)")
        case (Inl e)
        with wait_error [OF Inl] Some r False ph lun show ?thesis
          by (simp add: upload_finally_def Let_def)
      next
        case (Inr u)
        with Some r False ph lun reraise_pending [OF assms(2)] show ?thesis
          by (simp add: upload_finally_def Let_def)
      qed
    qed
  qed
qed

text \<open>
  C7. When the init wait and then the finalize wait have ended, the latter with the
  transfer in phase \<open>ph\<close>: if \<open>ph\<close> is UNKNOWN, FINISHED_FAILURE, FINALIZING_FAILURE
  or CANCELLED, the call fails with TransferFailedError carrying \<open>ph\<close>; for any other
  \<open>ph\<close> the call does not fail with a TransferFailedError.
\<close>

theorem C7_terminal_phase:
  assumes "init_wait (gets env) 0 (added env) = Some (n, t)"
    and "finalize_wait (gets env) n t = Some (m, t')"
  shows "terminal (upload_disk_image env p) = Some (phase t')
       \<and> (phase t' \<in> {UNKNOWN, FINISHED_FAILURE, FINALIZING_FAILURE, CANCELLED}
            \<longrightarrow> result (upload_disk_image env p)
                  = Some (Inl (TransferFailedError (phase t'))))
       \<and> (phase t' \<notin> {UNKNOWN, FINISHED_FAILURE, FINALIZING_FAILURE, CANCELLED}
            \<longrightarrow> (\<forall>ph'. result (upload_disk_image env p)
                    \<noteq> Some (Inl (TransferFailedError ph'))))"
proof -
  obtain sent pending
    where loop: "upload_loop (responses env) (signed_ticket t) (image_size env) 0 0
      = (sent, pending)"
    by (cases "upload_loop (responses env) (signed_ticket t) (image_size env) 0 0")
  have pending: "pending \<in> {None, Some TransferChunkError, Some TransportError}"
    using upload_loop_pending [of "responses env" "signed_ticket t" "image_size env" 0 0] loop
    by simp
  let ?evs = "AddTransfer (p_id p) # polls (poll_interval p) n
             @ Connect (tls_context (auth p)) # sent"
  have run: "upload_disk_image env p = upload_finally env p ?evs n t pending"
    using assms(1) loop by (simp add: upload_disk_image_def)
  have ended: "terminal (upload_finally env p ?evs n t pending) = Some (phase t')"
    using assms(2) by (simp add: upload_finally_def Let_def split: sum.splits)
  have set: "set failed_phases = {UNKNOWN, FINISHED_FAILURE, FINALIZING_FAILURE, CANCELLED}"
    by (simp add: failed_phases_def)
  from finally_terminal [OF ended pending] ended show ?thesis
    unfolding run set by blast
qed

lemma cancelled_waits:
  "init_wait (gets cancelled_upload) 0 (added cancelled_upload)
     = Some (3, transfer_in TRANSFERRING)"
  "finalize_wait (gets cancelled_upload) 3 (transfer_in TRANSFERRING)
     = Some (5, transfer_in CANCELLED)"
  by (simp_all add: cancelled_upload_def example_upload_def init_wait_def finalize_wait_def
      poll_while.simps cancelled_service_def transfer_in_def)

lemma example_waits:
  "init_wait (gets example_upload) 0 (added example_upload)
     = Some (3, transfer_in TRANSFERRING)"
  "finalize_wait (gets example_upload) 3 (transfer_in TRANSFERRING)
     = Some (5, transfer_in FINISHED_SUCCESS)"
  by (simp_all add: example_upload_def init_wait_def finalize_wait_def
      poll_while.simps smooth_service_def transfer_in_def)

text \<open>
  C7 at a transfer that ends in CANCELLED, and at one that ends in FINISHED_SUCCESS.
\<close>

theorem C7_cancelled_witness:
  "init_wait (gets cancelled_upload) 0 (added cancelled_upload)
     = Some (3, transfer_in TRANSFERRING)
   \<and> finalize_wait (gets cancelled_upload) 3 (transfer_in TRANSFERRING)
     = Some (5, transfer_in CANCELLED)
   \<and> result (upload_disk_image cancelled_upload example_params)
       = Some (Inl (TransferFailedError CANCELLED))
   \<and> init_wait (gets example_upload) 0 (added example_upload)
     = Some (3, transfer_in TRANSFERRING)
   \<and> finalize_wait (gets example_upload) 3 (transfer_in TRANSFERRING)
     = Some (5, transfer_in FINISHED_SUCCESS)
   \<and> result (upload_disk_image example_upload example_params)
       \<noteq> Some (Inl (TransferFailedError FINISHED_SUCCESS))"
proof -
  have ph: "phase (transfer_in ph) = ph" for ph
    by (simp add: transfer_in_def)
  from C7_terminal_phase [OF cancelled_waits, of example_params]
    C7_terminal_phase [OF example_waits, of example_params]
    cancelled_waits example_waits
  show ?thesis
    by (simp add: ph)
qed


section \<open>The suspension points of an upload\<close>

lemma finally_hangs_iff:
  "(result (upload_finally env p evs n t pending) = None)
     = (finalize_wait (gets env) n t = None)"
  by (auto simp: upload_finally_def Let_def split: option.splits sum.splits prod.splits)

lemma upload_hangs_iff:
  "(result (upload_disk_image env p) = None)
     = ((\<forall>j. phase (seen (gets env) 0 (added env) j) = INITIALIZING)
        \<or> (\<exists>n t. init_wait (gets env) 0 (added env) = Some (n, t)
             \<and> (\<forall>j. phase (seen (gets env) n t j) \<in> {TRANSFERRING, FINALIZING_SUCCESS})))"
proof (cases "init_wait (gets env) 0 (added env)")
  case None
  then have "\<forall>j. phase (seen (gets env) 0 (added env) j) = INITIALIZING"
    by (simp add: init_wait_def poll_while_None_iff)
  with None show ?thesis
    by (simp add: upload_disk_image_def)
next
  case (Some r)
  obtain n t where r: "r = (n, t)" by (cases r)
  have "init_wait (gets env) 0 (added env) \<noteq> None"
    using Some by simp
  then have init: "\<not> (\<forall>j. phase (seen (gets env) 0 (added env) j) = INITIALIZING)"
    by (simp add: init_wait_def poll_while_None_iff)
  have "(result (upload_disk_image env p) = None) = (finalize_wait (gets env) n t = None)"
    using Some r
    by (simp add: upload_disk_image_def finally_hangs_iff split: prod.splits)
  also have "\<dots> = (\<forall>j. phase (seen (gets env) n t j) \<in> {TRANSFERRING, FINALIZING_SUCCESS})"
    by (simp add: finalize_wait_def poll_while_None_iff)
  finally have eq: "(result (upload_disk_image env p) = None)
      = (\<forall>j. phase (seen (gets env) n t j) \<in> {TRANSFERRING, FINALIZING_SUCCESS})" .
  show ?thesis
    unfolding eq using init Some r by auto
qed

lemma stuck_seen: "seen (stuck_service ph) n (transfer_in ph) j = transfer_in ph"
  by (simp add: seen_def stuck_service_def)

text \<open>
  C2. The claim is that each of the three suspension points is bounded by the
  caller-supplied timeout and fails with TimeoutExceeded once it is exceeded. Here
  the program is evaluated with a timeout of 180 seconds. On a transfer that stays in
  INITIALIZING the init wait polls for ever, and on one that stays in TRANSFERRING the
  finalize wait polls for ever: neither call returns, so neither fails with
  TimeoutExceeded. On a LUN-backed disk that needs 200 seconds to report status OK, the
  LUN-status wait of the same function does fail with TimeoutExceeded.
\<close>

theorem C2_poll_loops_ignore_timeout:
  "timeout example_params = 180
   \<and> result (upload_disk_image (stuck_upload INITIALIZING) example_params) = None
   \<and> result (upload_disk_image (stuck_upload TRANSFERRING) example_params) = None
   \<and> timeout lun_params = 180 \<and> lun_ok_after example_upload = Some 200
   \<and> result (upload_disk_image example_upload lun_params) = Some (Inl TimeoutExceeded)"
proof -
  have "\<forall>j. phase (seen (gets (stuck_upload INITIALIZING)) 0
      (added (stuck_upload INITIALIZING)) j) = INITIALIZING"
    by (simp add: stuck_upload_def stuck_seen) (simp add: transfer_in_def)
  then have a: "result (upload_disk_image (stuck_upload INITIALIZING) example_params) = None"
    using upload_hangs_iff [of "stuck_upload INITIALIZING" example_params] by blast
  have i: "init_wait (gets (stuck_upload TRANSFERRING)) 0 (added (stuck_upload TRANSFERRING))
      = Some (0, transfer_in TRANSFERRING)"
    by (simp add: stuck_upload_def init_wait_def poll_while.simps transfer_in_def)
  have "\<forall>j. phase (seen (gets (stuck_upload TRANSFERRING)) 0 (transfer_in TRANSFERRING) j)
      \<in> {TRANSFERRING, FINALIZING_SUCCESS}"
    by (simp add: stuck_upload_def stuck_seen) (simp add: transfer_in_def)
  with i have b: "result (upload_disk_image (stuck_upload TRANSFERRING) example_params) = None"
    using upload_hangs_iff [of "stuck_upload TRANSFERRING" example_params] by blast
  have c: "result (upload_disk_image example_upload lun_params) = Some (Inl TimeoutExceeded)"
    by (simp add: upload_disk_image_def example_upload_def lun_params_def
        example_params_def init_wait_def finalize_wait_def poll_while.simps
        smooth_service_def transfer_in_def upload_loop.simps accept_all_def chunk_size_def
        upload_finally_def polls_def failed_phases_def truthy_def wait_def)
  show ?thesis
    using a b c by (simp add: example_params_def lun_params_def example_upload_def)
qed

section \<open>Storage placement\<close>

lemmas placement_defs =
  update_storage_domains_def initiate_move_def action_def move_condition_def wait_def
  search_by_name_def truthy_def example_placement_def lun_placement_def move_params_def
  copy_params_def example_params_def

text \<open>
  C3. The claim is that \<open>N\<close> names in \<^verbatim>\<open>storage_domains\<close> give exactly \<open>N\<close> copy
  actions, whether or not an earlier action of the call reported a change. Here the
  program is evaluated on an image-backed disk with the two names \<^verbatim>\<open>backup\<close> and
  \<^verbatim>\<open>archive\<close>, both existing: the copy to the first domain reports a change, the
  \<^verbatim>\<open>or\<close> of line 375 then skips the call for the second, and one copy action is
  issued.
\<close>

theorem C3_copies_short_circuit:
  "update_storage_domains (copy_params [''backup'', ''archive'']) example_placement
     = ([GetDisk, SearchStorageDomain ''backup'', Action Copy ''sd-backup'', WaitDiskOK 180,
         SearchStorageDomain ''archive''], Inr True)
   \<and> actions Copy
        (fst (update_storage_domains (copy_params [''backup'', ''archive'']) example_placement))
      = [''sd-backup'']"
  by (simp add: placement_defs)

text \<open>
  C9. The claim is that a declared storage-domain name that does not resolve makes
  \<^verbatim>\<open>update_storage_domains\<close> fail. Here the program is evaluated on an image-backed
  disk with the names \<^verbatim>\<open>backup\<close>, which exists, and \<^verbatim>\<open>nosuch\<close>, which does not:
  the second name is searched, nothing is found, the \<^verbatim>\<open>or\<close> of line 375 skips the
  call that would read the id of the missing domain, and the call returns a change
  without any failure.
\<close>

theorem C9_unresolved_domain_ignored:
  "domains example_placement ''nosuch'' = None
   \<and> update_storage_domains (copy_params [''backup'', ''nosuch'']) example_placement
     = ([GetDisk, SearchStorageDomain ''backup'', Action Copy ''sd-backup'', WaitDiskOK 180,
         SearchStorageDomain ''nosuch''], Inr True)"
  by (simp add: placement_defs)

lemma wait_result:
  "wait enabled limit settled
     = (if enabled \<and> (\<forall>s. settled = Some s \<longrightarrow> limit < s) then Inl TimeoutExceeded else Inr ())"
  by (auto simp: wait_def split: option.splits)

text \<open>
  C8. With a single \<^verbatim>\<open>storage_domain\<close> declared and no \<^verbatim>\<open>storage_domains\<close>: for
  a disk that is not image-backed nothing is searched or issued and the call returns
  unchanged. For an image-backed disk whose target domain resolves: if the target is
  the disk's primary domain, no action is issued and the call reports unchanged; if it
  differs, exactly one move action to the target is issued, followed by the wait for
  status OK, and the call reports a change once the wait has succeeded (it fails with
  TimeoutExceeded when the disk is not OK within the timeout).
\<close>

theorem C8_single_storage_domain:
  assumes "storage_domain p = Some name" and "name \<noteq> []" and "\<not> truthy (storage_domains p)"
  shows "(storage_type (disk env) \<noteq> IMAGE
            \<longrightarrow> update_storage_domains p env = ([GetDisk], Inr False))
       \<and> (storage_type (disk env) = IMAGE \<and> domains env name = Some target
            \<and> disk_storage_domains (disk env) = current # others
          \<longrightarrow> (target = current
                  \<longrightarrow> update_storage_domains p env
                        = ([GetDisk, SearchStorageDomain name], Inr False))
              \<and> (target \<noteq> current
                  \<longrightarrow> update_storage_domains p env
                        = ([GetDisk, SearchStorageDomain name, Action Move target,
                            Sleep (poll_interval p), WaitDiskOK (timeout p)],
                           if p_wait p \<and> (\<forall>s. ok_after env target = Some s \<longrightarrow> timeout p < s)
                           then Inl TimeoutExceeded else Inr True)))"
  using assms
  by (auto simp: update_storage_domains_def initiate_move_def action_def move_condition_def
      search_by_name_def wait_result)

text \<open>
  C8 at a LUN-backed disk, at an image-backed disk on \<^verbatim>\<open>sd-data\<close> with the target
  \<^verbatim>\<open>data\<close>, and at the same disk with the target \<^verbatim>\<open>backup\<close>.
\<close>

theorem C8_single_storage_domain_witness:
  "storage_domain (move_params ''backup'') = Some ''backup''
   \<and> \<not> truthy (storage_domains (move_params ''backup''))
   \<and> storage_type (disk lun_placement) \<noteq> IMAGE
   \<and> update_storage_domains (move_params ''backup'') lun_placement = ([GetDisk], Inr False)
   \<and> storage_type (disk example_placement) = IMAGE
   \<and> disk_storage_domains (disk example_placement) = [''sd-data'']
   \<and> domains example_placement ''data'' = Some ''sd-data''
   \<and> update_storage_domains (move_params ''data'') example_placement
       = ([GetDisk, SearchStorageDomain ''data''], Inr False)
   \<and> domains example_placement ''backup'' = Some ''sd-backup''
   \<and> update_storage_domains (move_params ''backup'') example_placement
       = ([GetDisk, SearchStorageDomain ''backup'', Action Move ''sd-backup'', Sleep 3,
           WaitDiskOK 180], Inr True)"
proof -
  have h: "storage_domain (move_params n) = Some n" "\<not> truthy (storage_domains (move_params n))"
    for n
    by (simp_all add: move_params_def example_params_def truthy_def)
  have ne: "''backup'' \<noteq> []" "''data'' \<noteq> []" by simp_all
  have env: "storage_type (disk lun_placement) \<noteq> IMAGE"
    "storage_type (disk example_placement) = IMAGE"
    "disk_storage_domains (disk example_placement) = ''sd-data'' # []"
    "domains example_placement ''data'' = Some ''sd-data''"
    "domains example_placement ''backup'' = Some ''sd-backup''"
    "ok_after example_placement ''sd-backup'' = Some 10"
    by (simp_all add: lun_placement_def example_placement_def)
  have par: "p_wait (move_params ''backup'')" "timeout (move_params ''backup'') = 180"
    "poll_interval (move_params ''backup'') = 3"
    by (simp_all add: move_params_def example_params_def)
  have diff: "''sd-backup'' \<noteq> ''sd-data''" by simp
  from C8_single_storage_domain [OF h(1) ne(1) h(2), of lun_placement] env(1)
  have a: "update_storage_domains (move_params ''backup'') lun_placement = ([GetDisk], Inr False)"
    by blast
  from C8_single_storage_domain [OF h(1) ne(2) h(2), of example_placement "''sd-data''"
      "''sd-data''" "[]"] env(2,3,4)
  have b: "update_storage_domains (move_params ''data'') example_placement
       = ([GetDisk, SearchStorageDomain ''data''], Inr False)"
    by blast
  from C8_single_storage_domain [OF h(1) ne(1) h(2), of example_placement "''sd-backup''"
      "''sd-data''" "[]"] env(2,3,5) diff
  have "update_storage_domains (move_params ''backup'') example_placement
       = ([GetDisk, SearchStorageDomain ''backup'', Action Move ''sd-backup'',
           Sleep (poll_interval (move_params ''backup'')),
           WaitDiskOK (timeout (move_params ''backup''))],
          if p_wait (move_params ''backup'')
             \<and> (\<forall>s. ok_after example_placement ''sd-backup'' = Some s
                   \<longrightarrow> timeout (move_params ''backup'') < s)
          then Inl TimeoutExceeded else Inr True)"
    by blast
  then have c: "update_storage_domains (move_params ''backup'') example_placement
       = ([GetDisk, SearchStorageDomain ''backup'', Action Move ''sd-backup'', Sleep 3,
           WaitDiskOK 180], Inr True)"
    by (simp add: par env(6))
  show ?thesis
    using a b c h env(1,2,3,4,5) by simp
qed

section \<open>The driver\<close>

lemma upload_returns_True:
  assumes "result (upload_disk_image env p) = Some (Inr b)"
  shows "b"
  using assms
  by (auto simp: upload_disk_image_def upload_finally_def Let_def reraise_def
      split: option.splits prod.splits if_splits sum.splits)

lemma find_lun_disk_events:
  "fst (find_lun_disk p env) = [] \<or> (\<exists>l. fst (find_lun_disk p env) = [SearchByLun l])"
  by (simp add: find_lun_disk_def split: option.splits)

lemma main_absent:
  assumes "p_state p = absent"
  shows "main p env =
     \<lparr>m_trace = fst (find_lun_disk p env) @ DiskRemove
          # (case vm_id p of Some v \<Rightarrow> [LocateAttachments v] | None \<Rightarrow> []) @ [CloseConnection],
      m_result = Some (ExitJson (reconciled False (removed env)))\<rparr>"
  using assms
  by (simp add: main_def manage_disk_def manage_attachment_def Let_def
      split: prod.splits option.splits)

text \<open>
  C4, as amended. With the declared state \<^verbatim>\<open>absent\<close>, whether the VM is referenced
  by \<^verbatim>\<open>vm_id\<close> or by \<^verbatim>\<open>vm_name\<close>: no VM is looked up by name and no attachment
  is created or removed; the run removes the disk and exits with the result of the
  removal. The branch of line 479 is skipped when \<^verbatim>\<open>vm_id\<close> is not set; when it is
  set the branch is entered, the attachments service of that VM is obtained, and
  nothing is done with it.
\<close>

theorem C4_absent_no_attachment_operation:
  assumes "p_state p = absent"
  shows "(\<forall>name. SearchVm name \<notin> set (m_trace (main p env)))
       \<and> (\<forall>c. AttachmentCreate c \<notin> set (m_trace (main p env)))
       \<and> (\<forall>c. AttachmentRemove c \<notin> set (m_trace (main p env)))
       \<and> (\<forall>v. (LocateAttachments v \<in> set (m_trace (main p env))) = (vm_id p = Some v))
       \<and> m_result (main p env) = Some (ExitJson (reconciled False (removed env)))"
proof -
  note run = main_absent [OF assms, of env]
  from find_lun_disk_events [of p env] show ?thesis
    unfolding run by (auto split: option.splits)
qed


lemma main_absent_vm_id:
  "main (absent_params (Some ''vm-7'') None) example_main
     = \<lparr>m_trace = [DiskRemove, LocateAttachments ''vm-7'', CloseConnection],
        m_result = Some (ExitJson \<lparr>ret_id = ''d1'', changed = True\<rparr>)\<rparr>"
  by (simp add: main_def find_lun_disk_def manage_disk_def manage_attachment_def
      absent_params_def example_params_def example_main_def reconciled_def)

text \<open>
  C4 as stated fails: with the state \<^verbatim>\<open>absent\<close> and \<^verbatim>\<open>vm_id\<close> set to
  \<^verbatim>\<open>vm-7\<close>, the condition of line 479 holds and the branch is executed, up to
  the attachments service of the VM.
\<close>

theorem C4_vm_id_counterexample:
  "p_state (absent_params (Some ''vm-7'') None) = absent
   \<and> m_trace (main (absent_params (Some ''vm-7'') None) example_main)
       = [DiskRemove, LocateAttachments ''vm-7'', CloseConnection]"
  by (simp add: main_absent_vm_id) (simp add: absent_params_def)

text \<open>
  C4, as amended, at the state \<^verbatim>\<open>absent\<close> with a VM name, and with a VM id.
\<close>

theorem C4_absent_witness:
  "p_state (absent_params None (Some ''vm1'')) = absent
   \<and> p_state (absent_params (Some ''vm-7'') None) = absent
   \<and> (\<forall>name. SearchVm name \<notin> set (m_trace (main (absent_params None (Some ''vm1'')) example_main)))
   \<and> (\<forall>v. LocateAttachments v \<notin> set (m_trace (main (absent_params None (Some ''vm1'')) example_main)))
   \<and> (\<forall>c. AttachmentRemove c \<notin> set (m_trace (main (absent_params (Some ''vm-7'') None) example_main)))
   \<and> (\<forall>c. AttachmentCreate c \<notin> set (m_trace (main (absent_params (Some ''vm-7'') None) example_main)))
   \<and> m_result (main (absent_params None (Some ''vm1'')) example_main)
       = Some (ExitJson \<lparr>ret_id = ''d1'', changed = True\<rparr>)"
proof -
  have a: "p_state (absent_params v n) = absent" "vm_id (absent_params v n) = v" for v n
    by (simp_all add: absent_params_def)
  have r: "reconciled False (removed example_main) = \<lparr>ret_id = ''d1'', changed = True\<rparr>"
    by (simp add: reconciled_def example_main_def)
  from C4_absent_no_attachment_operation [OF a(1), of None "Some ''vm1''" example_main]
    C4_absent_no_attachment_operation [OF a(1), of "Some ''vm-7''" None example_main]
  show ?thesis
    by (simp add: a r)
qed

lemma manage_disk_uploaded:
  assumes "p_state p \<noteq> absent" and "truthy (image_path p)"
    and "changed (created env) \<or> force p"
    and "manage_disk p env d = (evs, Some (Inr ret))"
  shows "changed ret"
proof -
  have st: "p_state p = present \<or> p_state p = detached \<or> p_state p = attached"
    using assms(1) by (cases "p_state p") simp_all
  show ?thesis
    using assms(2,3,4) st
    by (auto simp: manage_disk_def Let_def reconciled_def dest: upload_returns_True
        split: prod.splits sum.splits option.splits if_splits)
qed

lemma manage_attachment_keeps:
  assumes "changed ret" and "manage_attachment p env ret = (evs, Inr ret')"
  shows "changed ret'"
  using assms
  by (auto simp: manage_attachment_def Let_def reconciled_def
      split: prod.splits sum.splits option.splits if_splits)

text \<open>
  C10. A call of \<^verbatim>\<open>upload_disk_image\<close> that returns, returns \<^verbatim>\<open>True\<close>. So a run
  of the driver in which the image is uploaded (the state is not \<^verbatim>\<open>absent\<close>, an
  image path is given, and the disk is new or \<^verbatim>\<open>force\<close> is set) and which ends with
  a result, reports a change.
\<close>

theorem C10_upload_reports_change:
  "(result (upload_disk_image uenv up) = Some (Inr b) \<longrightarrow> b)
   \<and> (p_state p \<noteq> absent \<and> truthy (image_path p) \<and> (changed (created env) \<or> force p)
        \<and> m_result (main p env) = Some (ExitJson r)
      \<longrightarrow> changed r)"
proof (intro conjI impI)
  assume "result (upload_disk_image uenv up) = Some (Inr b)"
  then show b by (rule upload_returns_True)
next
  assume h: "p_state p \<noteq> absent \<and> truthy (image_path p) \<and> (changed (created env) \<or> force p)
        \<and> m_result (main p env) = Some (ExitJson r)"
  obtain evs0 d where lun: "find_lun_disk p env = (evs0, d)"
    by (cases "find_lun_disk p env")
  obtain evs1 managed where disk: "manage_disk p env d = (evs1, managed)"
    by (cases "manage_disk p env d")
  from h lun disk obtain ret where ret: "managed = Some (Inr ret)"
    by (auto simp: main_def split: option.splits sum.splits prod.splits)
  have c: "changed ret"
    using manage_disk_uploaded [of p env d evs1 ret] h disk ret by simp
  obtain evs2 att where att: "manage_attachment p env ret = (evs2, att)"
    by (cases "manage_attachment p env ret")
  from h lun disk ret att have "att = Inr r"
    by (auto simp: main_def split: sum.splits)
  with att manage_attachment_keeps [OF c] show "changed r" by simp
qed

lemma main_force:
  "main force_params example_main
     = \<lparr>m_trace =
          [DiskCreate, GetDisk, AddTransfer (Some ''d1''),
           Sleep 3, GetTransfer, Sleep 3, GetTransfer, Sleep 3, GetTransfer,
           Connect (tls_context (auth example_params)),
           Extend, Put ''ticket'' 0 8388607 20000000,
           Extend, Put ''ticket'' 8388608 16777215 20000000,
           Extend, Put ''ticket'' 16777216 19999999 20000000,
           Finalize, Sleep 3, GetTransfer, Sleep 3, GetTransfer, CloseConnection],
        m_result = Some (ExitJson \<lparr>ret_id = ''d1'', changed = True\<rparr>)\<rparr>"
  by (simp add: main_def find_lun_disk_def manage_disk_def manage_attachment_def
      force_params_def example_params_def example_main_def reconciled_def
      update_storage_domains_def initiate_move_def truthy_def example_placement_def
      upload_disk_image_def example_upload_def
      init_wait_def finalize_wait_def poll_while.simps smooth_service_def transfer_in_def
      upload_loop.simps accept_all_def chunk_size_def upload_finally_def polls_def
      failed_phases_def reraise_def)

text \<open>
  C10 at a forced upload to an existing disk: the reconciliation of the disk and its
  placement report no change, the upload returns \<^verbatim>\<open>True\<close>, and the result of the
  run reports a change.
\<close>

theorem C10_force_upload_witness:
  "p_state force_params \<noteq> absent \<and> truthy (image_path force_params) \<and> force force_params
   \<and> \<not> changed (created example_main)
   \<and> update_storage_domains force_params (placement example_main) = ([GetDisk], Inr False)
   \<and> result (upload_disk_image example_upload example_params) = Some (Inr True)
   \<and> m_result (main force_params example_main)
       = Some (ExitJson \<lparr>ret_id = ''d1'', changed = True\<rparr>)
   \<and> changed \<lparr>ret_id = ''d1'', changed = True\<rparr>"
proof -
  have h: "p_state force_params \<noteq> absent" "truthy (image_path force_params)"
    "force force_params" "\<not> changed (created example_main)"
    by (simp_all add: force_params_def example_params_def truthy_def example_main_def)
  have u: "update_storage_domains force_params (placement example_main) = ([GetDisk], Inr False)"
    by (simp add: update_storage_domains_def initiate_move_def truthy_def example_main_def
        example_placement_def force_params_def example_params_def)
  have up: "result (upload_disk_image example_upload example_params) = Some (Inr True)"
    by (simp add: upload_disk_image_def example_upload_def example_params_def
      init_wait_def finalize_wait_def poll_while.simps smooth_service_def transfer_in_def
      upload_loop.simps accept_all_def chunk_size_def upload_finally_def polls_def
      failed_phases_def reraise_def truthy_def)
  have m: "m_result (main force_params example_main)
       = Some (ExitJson \<lparr>ret_id = ''d1'', changed = True\<rparr>)"
    by (simp add: main_force)
  from C10_upload_reports_change [of example_upload example_params True force_params
      example_main "\<lparr>ret_id = ''d1'', changed = True\<rparr>"] h u up m
  show ?thesis by blast
qed

end
